theory Spec2Isabelle
  imports Main "HOL-Library.Finite_Map"
begin

section \<open>Data model of the dashboard executor\<close>

text \<open>
  The embedding follows \<^verbatim>\<open>internal/dashboardexecute/executor.go\<close>.

  A Go \<^verbatim>\<open>error\<close> is identified with its message: the executor itself compares errors
  through \<^verbatim>\<open>Error()\<close>, and the messages are what callers and events see.
\<close>

type_synonym error = string

text \<open>
  \<^verbatim>\<open>map[string]any\<close>: a finite map from input names to values of open type. A key
  may be present with the value \<^verbatim>\<open>nil\<close>, which is \<open>Some None\<close> here; a missing key is
  \<open>None\<close>. Reading \<^verbatim>\<open>inputs[name]\<close> gives \<^verbatim>\<open>nil\<close> in both cases, the two-valued
  read \<^verbatim>\<open>_, ok := inputs[name]\<close> tells them apart.
\<close>

type_synonym 'v inputs = "(string, 'v option) fmap"

definition lookup_input :: "'v inputs \<Rightarrow> string \<Rightarrow> 'v option" where
  "lookup_input inputs name = (case fmlookup inputs name of None \<Rightarrow> None | Some v \<Rightarrow> v)"

definition len :: "'v inputs \<Rightarrow> nat" where
  "len inputs = fcard (fmdom inputs)"

text \<open>
  \<^verbatim>\<open>context.Context\<close>: the executor only reads \<^verbatim>\<open>ctx.Err()\<close>, in the deferred function
  of \<^verbatim>\<open>ExecuteDashboard\<close>. Once non-nil the value never changes, so the reads there
  are one value. \<^verbatim>\<open>context.DeadlineExceeded.Error()\<close> is the standard library's message.
\<close>

record Context =
  Err :: "error option"

definition DeadlineExceeded :: error where
  "DeadlineExceeded = ''context deadline exceeded''"

text \<open>
  Modelled from the spec: \<^verbatim>\<open>dashboardtypes.RunStatus\<close> and its \<^verbatim>\<open>IsFinished\<close>, declared in
  package \<^verbatim>\<open>dashboardtypes\<close>. The run status values are initialized, blocked, running,
  complete, error and cancelled; the terminal ones are complete, error and cancelled.
\<close>

datatype RunStatus =
  RunInitialized | RunBlocked | RunRunning | RunComplete | RunError | RunCanceled

fun IsFinished :: "RunStatus \<Rightarrow> bool" where
  "IsFinished RunComplete = True"
| "IsFinished RunError = True"
| "IsFinished RunCanceled = True"
| "IsFinished _ = False"

text \<open>
  \<^verbatim>\<open>dashboardtypes.DashboardTreeRun\<close>: the interface of the root run. The executor calls
  two of its methods; what they return is a parameter of the model.
\<close>

record 'res DashboardTreeRun =
  GetInputsDependingOn :: "string \<Rightarrow> string list"
  GetResource :: 'res

text \<open>
  \<^verbatim>\<open>DashboardExecutionTree\<close>: the fields and getters the executor reads (\<open>tree_sessionId\<close>,
  \<open>tree_id\<close> and \<open>tree_workspace\<close> are the fields \<^verbatim>\<open>sessionId\<close>, \<^verbatim>\<open>id\<close> and \<^verbatim>\<open>workspace\<close>). The
  methods \<^verbatim>\<open>Cancel\<close>, \<^verbatim>\<open>SetInputValues\<close> and \<^verbatim>\<open>Execute\<close> are implemented elsewhere; a call to
  one of them is recorded as an action of the trace below, with the tree it is called on.
\<close>

record ('v, 'res, 'ws) DashboardExecutionTree =
  Root :: "'res DashboardTreeRun"
  tree_sessionId :: string
  tree_id :: string
  tree_workspace :: 'ws
  inputValues :: "'v inputs"
  GetRunStatus :: RunStatus
  InputRuntimeDependencies :: "string list"

text \<open>
  The two events the executor publishes: \<^verbatim>\<open>ExecutionError{Error, Session, Timestamp}\<close> and
  \<^verbatim>\<open>InputValuesCleared{ClearedInputs, Session, ExecutionId}\<close>.
\<close>

datatype event =
  ExecutionError error string nat
| InputValuesCleared "string list" string string

text \<open>
  What an operation does besides returning: the calls it makes to its collaborators and
  its accesses to the \<^verbatim>\<open>executions\<close> map, in program order. \<open>Lock\<close> and \<open>Unlock\<close> are
  \<^verbatim>\<open>e.executionLock.Lock()\<close> and the deferred \<^verbatim>\<open>e.executionLock.Unlock()\<close>; the mutex has no
  other state in the model, which runs one operation at a time. \<open>GoExecute\<close> is
  \<^verbatim>\<open>go executionTree.Execute(ctx)\<close>.
\<close>

datatype ('v, 'res, 'ws) action =
  PublishDashboardEvent 'ws event
| Cancel "('v, 'res, 'ws) DashboardExecutionTree"
| SetInputValues "('v, 'res, 'ws) DashboardExecutionTree" "'v inputs"
| GoExecute "('v, 'res, 'ws) DashboardExecutionTree" Context
| Lock
| Unlock
| ReadExecutions string
| WriteExecutions string
| DeleteExecutions string

record ('v, 'res, 'ws, 'cl) DashboardExecutor =
  executions :: "string \<rightharpoonup> ('v, 'res, 'ws) DashboardExecutionTree"
  interactive :: bool
  defaultClient :: 'cl

text \<open>The state threaded through the operations: the executor and the trace so far.\<close>

record ('v, 'res, 'ws, 'cl) world =
  executor :: "('v, 'res, 'ws, 'cl) DashboardExecutor"
  trace :: "('v, 'res, 'ws) action list"

definition emit ::
  "('v, 'res, 'ws) action \<Rightarrow> ('v, 'res, 'ws, 'cl) world \<Rightarrow> ('v, 'res, 'ws, 'cl) world" where
  "emit a w = w\<lparr>trace := trace w @ [a]\<rparr>"

text \<open>
  Functions the executor calls and that are implemented elsewhere, taken as parameters:
  \<^verbatim>\<open>newDashboardExecutionTree\<close> (the tree constructor), \<^verbatim>\<open>utils.Pluralize\<close> (of the
  pipe-fittings library) and \<^verbatim>\<open>time.Now\<close>.
\<close>

record ('v, 'res, 'ws, 'cl, 'opt) collaborators =
  newDashboardExecutionTree ::
    "'res \<Rightarrow> string \<Rightarrow> 'ws \<Rightarrow> 'cl \<Rightarrow> 'opt list \<Rightarrow> error + ('v, 'res, 'ws) DashboardExecutionTree"
  Pluralize :: "string \<Rightarrow> nat \<Rightarrow> string"
  Now :: nat

section \<open>The operations\<close>

definition NewDashboardExecutor :: "'cl \<Rightarrow> ('v, 'res, 'ws, 'cl) DashboardExecutor" where
  "NewDashboardExecutor client =
     \<lparr>executions = Map.empty, interactive = True, defaultClient = client\<rparr>"

text \<open>\<^verbatim>\<open>getExecution\<close>, \<^verbatim>\<open>setExecution\<close>, \<^verbatim>\<open>removeExecution\<close>: the map under the mutex.\<close>

definition getExecution ::
  "string \<Rightarrow> ('v, 'res, 'ws, 'cl) world
     \<Rightarrow> ('v, 'res, 'ws) DashboardExecutionTree option \<times> ('v, 'res, 'ws, 'cl) world" where
  "getExecution sessionId w =
     (let w = emit Lock w;
          executionTree = executions (executor w) sessionId;
          w = emit (ReadExecutions sessionId) w;
          w = emit Unlock w
      in (executionTree, w))"

definition setExecution ::
  "string \<Rightarrow> ('v, 'res, 'ws) DashboardExecutionTree \<Rightarrow> ('v, 'res, 'ws, 'cl) world
     \<Rightarrow> ('v, 'res, 'ws, 'cl) world" where
  "setExecution sessionId executionTree w =
     (let w = emit Lock w;
          w = w\<lparr>executor := (executor w)
                 \<lparr>executions := (executions (executor w))(sessionId \<mapsto> executionTree)\<rparr>\<rparr>;
          w = emit (WriteExecutions sessionId) w
      in emit Unlock w)"

definition removeExecution ::
  "string \<Rightarrow> ('v, 'res, 'ws, 'cl) world \<Rightarrow> ('v, 'res, 'ws, 'cl) world" where
  "removeExecution sessionId w =
     (let w = emit Lock w;
          w = w\<lparr>executor := (executor w)
                 \<lparr>executions := (executions (executor w))(sessionId := None)\<rparr>\<rparr>;
          w = emit (DeleteExecutions sessionId) w
      in emit Unlock w)"

definition CancelExecutionForSession ::
  "string \<Rightarrow> ('v, 'res, 'ws, 'cl) world \<Rightarrow> ('v, 'res, 'ws, 'cl) world" where
  "CancelExecutionForSession sessionId w =
     (case getExecution sessionId w of
        (None, w) \<Rightarrow> w
      | (Some executionTree, w) \<Rightarrow>
          removeExecution sessionId (emit (Cancel executionTree) w))"

text \<open>\<^verbatim>\<open>strings.Join\<close>.\<close>

fun Join :: "string list \<Rightarrow> string \<Rightarrow> string" where
  "Join [] sep = []"
| "Join [x] sep = x"
| "Join (x # y # ys) sep = x @ sep @ Join (y # ys) sep"

definition validateInputs ::
  "('v, 'res, 'ws, 'cl, 'opt) collaborators \<Rightarrow> ('v, 'res, 'ws, 'cl) DashboardExecutor
     \<Rightarrow> ('v, 'res, 'ws) DashboardExecutionTree \<Rightarrow> 'v inputs \<Rightarrow> error option" where
  "validateInputs env e executionTree inputs =
     (if interactive e then None
      else
        let missingInputs =
              filter (\<lambda>inputName. fmlookup inputs inputName = None)
                (InputRuntimeDependencies executionTree);
            missingCount = length missingInputs
        in if missingCount > 0
           then Some (Pluralize env ''input'' missingCount @ '' ''
                      @ [CHR 0x27] @ Join missingInputs '','' @ [CHR 0x27]
                      @ '' must be provided using '--arg name=value'' @ [CHR 0x27])
           else None)"

text \<open>
  \<^verbatim>\<open>ExecuteDashboard\<close>, in two parts: the body up to its \<^verbatim>\<open>return\<close>, and the deferred
  function, which runs on every return path with the error the body returned.
\<close>

definition ExecuteDashboard_body ::
  "('v, 'res, 'ws, 'cl, 'opt) collaborators \<Rightarrow> Context \<Rightarrow> string \<Rightarrow> 'res \<Rightarrow> 'v inputs \<Rightarrow> 'ws
     \<Rightarrow> 'opt list \<Rightarrow> ('v, 'res, 'ws, 'cl) world
     \<Rightarrow> error option \<times> ('v, 'res, 'ws, 'cl) world" where
  "ExecuteDashboard_body env ctx sessionId rootResource inputs workspace opts w =
     (let w = CancelExecutionForSession sessionId w
      in case newDashboardExecutionTree env rootResource sessionId workspace
                (defaultClient (executor w)) opts of
           Inl err \<Rightarrow> (Some err, w)
         | Inr executionTree \<Rightarrow>
             (case validateInputs env (executor w) executionTree inputs of
                Some err \<Rightarrow> (Some err, w)
              | None \<Rightarrow>
                  let w = setExecution sessionId executionTree w;
                      w = (if len inputs > 0
                           then emit (SetInputValues executionTree inputs) w else w);
                      w = emit (GoExecute executionTree ctx) w
                  in (None, w)))"

definition ExecuteDashboard_deferred ::
  "('v, 'res, 'ws, 'cl, 'opt) collaborators \<Rightarrow> Context \<Rightarrow> string \<Rightarrow> 'ws
     \<Rightarrow> error option \<times> ('v, 'res, 'ws, 'cl) world
     \<Rightarrow> error option \<times> ('v, 'res, 'ws, 'cl) world" where
  "ExecuteDashboard_deferred env ctx sessionId workspace r =
     (let (err, w) = r;
          err = (if err = None \<and> Err ctx \<noteq> None
                 then (if Err ctx \<noteq> None \<and> Err ctx = Some DeadlineExceeded
                       then Some ''execution timed out''
                       else Err ctx)
                 else err)
      in case err of
           None \<Rightarrow> (None, w)
         | Some e \<Rightarrow>
             (Some e, emit (PublishDashboardEvent workspace (ExecutionError e sessionId (Now env))) w))"

definition ExecuteDashboard ::
  "('v, 'res, 'ws, 'cl, 'opt) collaborators \<Rightarrow> Context \<Rightarrow> string \<Rightarrow> 'res \<Rightarrow> 'v inputs \<Rightarrow> 'ws
     \<Rightarrow> 'opt list \<Rightarrow> ('v, 'res, 'ws, 'cl) world
     \<Rightarrow> error option \<times> ('v, 'res, 'ws, 'cl) world" where
  "ExecuteDashboard env ctx sessionId rootResource inputs workspace opts w =
     ExecuteDashboard_deferred env ctx sessionId workspace
       (ExecuteDashboard_body env ctx sessionId rootResource inputs workspace opts w)"

text \<open>
  \<^verbatim>\<open>clearDependentInputs\<close>. \<open>clearLoop\<close> is its \<^verbatim>\<open>for\<close> loop over \<^verbatim>\<open>dependentInputs\<close>, with
  the recursive call of \<^verbatim>\<open>clearDependentInputs(root, inputName, inputs)\<close> written out:
  it reads the dependents of \<^verbatim>\<open>inputName\<close>, starts \<^verbatim>\<open>clearedInputs\<close> from them and runs
  the loop on them (on an empty list the loop does nothing, which is the source's guard
  \<^verbatim>\<open>len(dependentInputs) > 0\<close>; \<open>clearLoop_Cons\<close> below gives the loop with the call folded
  back). The map is mutated in place in the source and threaded here. Nothing bounds the
  recursion in the source, so the result is an option: \<open>None\<close> is a call that does not
  return.
\<close>

partial_function (option) clearLoop ::
  "'res DashboardTreeRun \<Rightarrow> string list \<Rightarrow> string list \<Rightarrow> 'v inputs
     \<Rightarrow> (string list \<times> 'v inputs) option" where
  "clearLoop root rest clearedInputs inputs =
     (case rest of
        [] \<Rightarrow> Some (clearedInputs, inputs)
      | inputName # rest' \<Rightarrow>
          if lookup_input inputs inputName \<noteq> None
          then Option.bind
                 (let inputs = fmupd inputName None inputs;
                      dependentInputs = GetInputsDependingOn root inputName
                  in clearLoop root dependentInputs dependentInputs inputs)
                 (\<lambda>(childDependentInputs, inputs).
                     clearLoop root rest' (clearedInputs @ childDependentInputs) inputs)
          else clearLoop root rest' clearedInputs inputs)"

definition clearDependentInputs ::
  "'res DashboardTreeRun \<Rightarrow> string \<Rightarrow> 'v inputs \<Rightarrow> (string list \<times> 'v inputs) option" where
  "clearDependentInputs root changedInput inputs =
     (let dependentInputs = GetInputsDependingOn root changedInput;
          clearedInputs = dependentInputs
      in if length dependentInputs > 0
         then clearLoop root dependentInputs clearedInputs inputs
         else Some (clearedInputs, inputs))"

text \<open>
  \<^verbatim>\<open>OnInputChanged\<close>. It reads \<^verbatim>\<open>e.executions[sessionId]\<close> directly. The result is \<open>None\<close>
  only if \<^verbatim>\<open>clearDependentInputs\<close> does not return.
\<close>

definition OnInputChanged ::
  "('v, 'res, 'ws, 'cl, 'opt) collaborators \<Rightarrow> Context \<Rightarrow> string \<Rightarrow> 'v inputs \<Rightarrow> string
     \<Rightarrow> ('v, 'res, 'ws, 'cl) world
     \<Rightarrow> (error option \<times> ('v, 'res, 'ws, 'cl) world) option" where
  "OnInputChanged env ctx sessionId inputs changedInput w =
     (let found = executions (executor w) sessionId;
          w = emit (ReadExecutions sessionId) w
      in case found of
           None \<Rightarrow> Some (Some (''no dashboard running for session '' @ sessionId), w)
         | Some executionTree \<Rightarrow>
             let inputPrevValue = lookup_input (inputValues executionTree) changedInput
             in Option.bind (clearDependentInputs (Root executionTree) changedInput inputs)
                  (\<lambda>(clearedInputs, inputs).
                     let w = (if length clearedInputs > 0
                              then emit (PublishDashboardEvent (tree_workspace executionTree)
                                           (InputValuesCleared clearedInputs
                                              (tree_sessionId executionTree)
                                              (tree_id executionTree))) w
                              else w)
                     in if IsFinished (GetRunStatus executionTree) \<or> inputPrevValue \<noteq> None
                        then Some (ExecuteDashboard env ctx sessionId
                                     (GetResource (Root executionTree)) inputs
                                     (tree_workspace executionTree) [] w)
                        else Some (None, emit (SetInputValues executionTree inputs) w)))"

section \<open>Vocabulary of the properties\<close>

text \<open>The inputs whose current value is non-nil.\<close>

definition nonNull :: "'v inputs \<Rightarrow> string set" where
  "nonNull inputs = {name. lookup_input inputs name \<noteq> None}"

text \<open>
  The declared-dependency graph restricted to a set \<open>N\<close> of inputs: an edge from \<open>a\<close> to
  each input of \<open>N\<close> that \<^verbatim>\<open>GetInputsDependingOn(a)\<close> lists.
\<close>

definition dependsEdges :: "'res DashboardTreeRun \<Rightarrow> string set \<Rightarrow> (string \<times> string) set" where
  "dependsEdges root N = {(a, b). b \<in> set (GetInputsDependingOn root a) \<and> b \<in> N}"

text \<open>
  The set the specification names: the transitive closure of declared dependents of the
  changed input, restricted to the inputs that are currently non-nil.
\<close>

definition specClearedSet :: "'res DashboardTreeRun \<Rightarrow> 'v inputs \<Rightarrow> string \<Rightarrow> string set" where
  "specClearedSet root inputs changedInput =
     {z. (changedInput, z) \<in> (dependsEdges root (nonNull inputs))\<^sup>+}"

text \<open>
  The dependents listed along the way: those of \<open>x\<close> and of every input reached from \<open>x\<close>
  through inputs of \<open>N\<close>.
\<close>

definition collected :: "'res DashboardTreeRun \<Rightarrow> string set \<Rightarrow> string \<Rightarrow> string set" where
  "collected root N x =
     {z. \<exists>y. (x, y) \<in> (dependsEdges root N)\<^sup>* \<and> z \<in> set (GetInputsDependingOn root y)}"

definition collectedFrom :: "'res DashboardTreeRun \<Rightarrow> string set \<Rightarrow> string list \<Rightarrow> string set" where
  "collectedFrom root N ys = {z. \<exists>y \<in> set ys. y \<in> N \<and> z \<in> collected root N y}"

text \<open>\<open>m'\<close> is \<open>m\<close> with the non-nil inputs of \<open>C\<close> set to nil, and nothing else changed.\<close>

definition clearedTo :: "'v inputs \<Rightarrow> string set \<Rightarrow> 'v inputs \<Rightarrow> bool" where
  "clearedTo m C m' \<longleftrightarrow>
     (\<forall>k. fmlookup m' k = (if k \<in> nonNull m \<and> k \<in> C then Some None else fmlookup m k))"

text \<open>
  Lock discipline of a trace: every access to \<^verbatim>\<open>executions\<close> happens between a \<open>Lock\<close> and
  the next \<open>Unlock\<close>. The first argument tells whether the mutex is held at the start.
\<close>

fun guarded :: "bool \<Rightarrow> ('v, 'res, 'ws) action list \<Rightarrow> bool" where
  "guarded held [] = True"
| "guarded held (Lock # t) = guarded True t"
| "guarded held (Unlock # t) = guarded False t"
| "guarded held (ReadExecutions s # t) = (held \<and> guarded held t)"
| "guarded held (WriteExecutions s # t) = (held \<and> guarded held t)"
| "guarded held (DeleteExecutions s # t) = (held \<and> guarded held t)"
| "guarded held (PublishDashboardEvent ws ev # t) = guarded held t"
| "guarded held (Cancel tree # t) = guarded held t"
| "guarded held (SetInputValues tree inputs # t) = guarded held t"
| "guarded held (GoExecute tree ctx # t) = guarded held t"

text \<open>No execution of a tree is started (\<^verbatim>\<open>go executionTree.Execute(ctx)\<close>) with the mutex held.\<close>

fun executesUnlocked :: "bool \<Rightarrow> ('v, 'res, 'ws) action list \<Rightarrow> bool" where
  "executesUnlocked held [] = True"
| "executesUnlocked held (Lock # t) = executesUnlocked True t"
| "executesUnlocked held (Unlock # t) = executesUnlocked False t"
| "executesUnlocked held (GoExecute tree ctx # t) = (\<not> held \<and> executesUnlocked held t)"
| "executesUnlocked held (ReadExecutions s # t) = executesUnlocked held t"
| "executesUnlocked held (WriteExecutions s # t) = executesUnlocked held t"
| "executesUnlocked held (DeleteExecutions s # t) = executesUnlocked held t"
| "executesUnlocked held (PublishDashboardEvent ws ev # t) = executesUnlocked held t"
| "executesUnlocked held (Cancel tree # t) = executesUnlocked held t"
| "executesUnlocked held (SetInputValues tree inputs # t) = executesUnlocked held t"

text \<open>The part of the trace an operation added, from the state before to the state after.\<close>

definition added ::
  "('v, 'res, 'ws, 'cl) world \<Rightarrow> ('v, 'res, 'ws, 'cl) world \<Rightarrow> ('v, 'res, 'ws) action list" where
  "added w w' = drop (length (trace w)) (trace w')"

subsection \<open>A sample dashboard\<close>

text \<open>
  Three inputs: \<open>B\<close> depends on \<open>A\<close>, \<open>C\<close> depends on \<open>B\<close>. The tree is running and needs
  the input \<open>region\<close>. \<open>cyclicRoot\<close> declares \<open>A\<close> and \<open>B\<close> dependent on each other.
  \<open>freshWorld\<close> is a new executor, \<open>registeredWorld\<close> one with a tree registered for the
  session \<open>s1\<close>; both take the \<^verbatim>\<open>interactive\<close> setting.
  \<open>sampleEnv\<close> builds \<open>sampleTree\<close> for every request and pluralizes with an \<open>s\<close>;
  \<open>failingEnv\<close> fails to build a tree.
\<close>

definition sampleRoot :: "string DashboardTreeRun" where
  "sampleRoot =
     \<lparr>GetInputsDependingOn =
        (\<lambda>name. if name = ''A'' then [''B''] else if name = ''B'' then [''C''] else []),
      GetResource = ''dashboard.sample''\<rparr>"

definition cyclicRoot :: "string DashboardTreeRun" where
  "cyclicRoot =
     \<lparr>GetInputsDependingOn =
        (\<lambda>name. if name = ''A'' then [''B''] else if name = ''B'' then [''A''] else []),
      GetResource = ''dashboard.cyclic''\<rparr>"

definition sampleInputs :: "string inputs" where
  "sampleInputs = fmupd ''A'' (Some ''x'') (fmupd ''B'' (Some ''y'') (fmupd ''C'' None fmempty))"

definition sampleTree :: "(string, string, string) DashboardExecutionTree" where
  "sampleTree =
     \<lparr>Root = sampleRoot, tree_sessionId = ''s1'', tree_id = ''e1'', tree_workspace = ''ws'',
      inputValues = fmempty, GetRunStatus = RunRunning,
      InputRuntimeDependencies = [''region'']\<rparr>"

definition sampleEnv :: "(string, string, string, unit, unit) collaborators" where
  "sampleEnv =
     \<lparr>newDashboardExecutionTree = (\<lambda>rootResource sessionId workspace client opts. Inr sampleTree),
      Pluralize = (\<lambda>base count. if count = 1 then base else base @ ''s''),
      Now = 0\<rparr>"

definition failingEnv :: "(string, string, string, unit, unit) collaborators" where
  "failingEnv =
     sampleEnv\<lparr>newDashboardExecutionTree :=
       (\<lambda>rootResource sessionId workspace client opts. Inl ''resource not found'')\<rparr>"

definition freshWorld :: "bool \<Rightarrow> (string, string, string, unit) world" where
  "freshWorld interactiveMode =
     \<lparr>executor = (NewDashboardExecutor ())\<lparr>interactive := interactiveMode\<rparr>, trace = []\<rparr>"

definition registeredWorld ::
  "bool \<Rightarrow> (string, string, string) DashboardExecutionTree
     \<Rightarrow> (string, string, string, unit) world" where
  "registeredWorld interactiveMode executionTree =
     \<lparr>executor = (NewDashboardExecutor ())
        \<lparr>executions := [''s1'' \<mapsto> executionTree], interactive := interactiveMode\<rparr>,
      trace = []\<rparr>"

section \<open>Clearing dependent inputs\<close>

lemma finite_nonNull: "finite (nonNull m)"
proof -
  have "nonNull m \<subseteq> fmdom' m"
    by (auto simp: nonNull_def lookup_input_def fmdom'_def dom_def split: option.splits)
  thus ?thesis by (rule finite_subset) simp
qed

lemma nonNull_fmupd_None: "nonNull (fmupd y None m) = nonNull m - {y}"
  by (auto simp: nonNull_def lookup_input_def)

lemma dependsEdges_mono: "N' \<subseteq> N \<Longrightarrow> dependsEdges root N' \<subseteq> dependsEdges root N"
  by (auto simp: dependsEdges_def)

lemma collected_mono: "N' \<subseteq> N \<Longrightarrow> collected root N' x \<subseteq> collected root N x"
  using rtrancl_mono[OF dependsEdges_mono, of N' N root]
  by (auto simp: collected_def)

lemma collectedFrom_mono: "N' \<subseteq> N \<Longrightarrow> collectedFrom root N' ys \<subseteq> collectedFrom root N ys"
  using collected_mono[of N' N root] by (fastforce simp: collectedFrom_def)

lemma collected_self_removed: "collected root (N - {y}) y = collected root N y"
proof
  show "collected root (N - {y}) y \<subseteq> collected root N y"
    by (rule collected_mono) auto
next
  have path: "(y, w) \<in> (dependsEdges root (N - {y}))\<^sup>*" if "(y, w) \<in> (dependsEdges root N)\<^sup>*" for w
    using that
  proof (induction rule: rtrancl_induct)
    case base
    show ?case by simp
  next
    case (step w w')
    show ?case
    proof (cases "w' = y")
      case True
      thus ?thesis by simp
    next
      case False
      with step.hyps(2) have "(w, w') \<in> dependsEdges root (N - {y})"
        by (simp add: dependsEdges_def)
      with step.IH show ?thesis by (rule rtrancl_into_rtrancl)
    qed
  qed
  show "collected root N y \<subseteq> collected root (N - {y}) y"
    using path by (auto simp: collected_def)
qed

lemma collected_unfold:
  "collected root N x = set (GetInputsDependingOn root x) \<union> collectedFrom root N (GetInputsDependingOn root x)"
proof (intro equalityI subsetI)
  fix z assume "z \<in> collected root N x"
  then obtain w where w: "(x, w) \<in> (dependsEdges root N)\<^sup>*" "z \<in> set (GetInputsDependingOn root w)"
    by (auto simp: collected_def)
  from w(1) show "z \<in> set (GetInputsDependingOn root x) \<union> collectedFrom root N (GetInputsDependingOn root x)"
  proof (cases rule: converse_rtranclE)
    case base
    with w(2) show ?thesis by simp
  next
    case (step v)
    hence "v \<in> set (GetInputsDependingOn root x)" "v \<in> N"
      by (auto simp: dependsEdges_def)
    moreover have "z \<in> collected root N v"
      using step(2) w(2) by (auto simp: collected_def)
    ultimately show ?thesis by (auto simp: collectedFrom_def)
  qed
next
  fix z assume "z \<in> set (GetInputsDependingOn root x) \<union> collectedFrom root N (GetInputsDependingOn root x)"
  thus "z \<in> collected root N x"
  proof
    assume "z \<in> set (GetInputsDependingOn root x)"
    thus ?thesis by (auto simp: collected_def)
  next
    assume "z \<in> collectedFrom root N (GetInputsDependingOn root x)"
    then obtain v w where "v \<in> set (GetInputsDependingOn root x)" "v \<in> N"
      "(v, w) \<in> (dependsEdges root N)\<^sup>*" "z \<in> set (GetInputsDependingOn root w)"
      by (auto simp: collectedFrom_def collected_def)
    moreover from this have "(x, v) \<in> dependsEdges root N"
      by (simp add: dependsEdges_def)
    ultimately have "(x, w) \<in> (dependsEdges root N)\<^sup>*"
      by (meson converse_rtrancl_into_rtrancl)
    with \<open>z \<in> set (GetInputsDependingOn root w)\<close> show ?thesis
      by (auto simp: collected_def)
  qed
qed

lemma collected_path:
  assumes "v \<in> N" and "v = y \<or> v \<in> collected root N y"
  shows "(y, v) \<in> (dependsEdges root N)\<^sup>*"
  using assms(2)
proof
  assume "v = y" thus ?thesis by simp
next
  assume "v \<in> collected root N y"
  then obtain w where "(y, w) \<in> (dependsEdges root N)\<^sup>*" "v \<in> set (GetInputsDependingOn root w)"
    by (auto simp: collected_def)
  moreover from this assms(1) have "(w, v) \<in> dependsEdges root N"
    by (simp add: dependsEdges_def)
  ultimately show ?thesis by (meson rtrancl_into_rtrancl)
qed

lemma collected_after_clearing:
  assumes y2: "y2 \<in> N" and z: "z \<in> collected root N y2"
    and N1: "N1 = N - {y} - collected root N y"
  shows "z \<in> collected root N y \<or> (y2 \<in> N1 \<and> z \<in> collected root N1 y2)"
proof -
  from z obtain w where w: "(y2, w) \<in> (dependsEdges root N)\<^sup>*" "z \<in> set (GetInputsDependingOn root w)"
    by (auto simp: collected_def)
  show ?thesis
  proof (cases "y2 \<in> N1")
    case False
    with y2 N1 have "y2 = y \<or> y2 \<in> collected root N y" by auto
    with y2 have "(y, y2) \<in> (dependsEdges root N)\<^sup>*" by (rule collected_path)
    with w(1) have "(y, w) \<in> (dependsEdges root N)\<^sup>*" by (meson rtrancl_trans)
    with w(2) show ?thesis by (auto simp: collected_def)
  next
    case True
    from w(1) have "(y, w) \<in> (dependsEdges root N)\<^sup>* \<or> (y2, w) \<in> (dependsEdges root N1)\<^sup>*"
    proof (induction rule: rtrancl_induct)
      case base
      show ?case by simp
    next
      case (step w w')
      from step.hyps(2) have w': "w' \<in> set (GetInputsDependingOn root w)" "w' \<in> N"
        by (auto simp: dependsEdges_def)
      from step.IH show ?case
      proof
        assume "(y, w) \<in> (dependsEdges root N)\<^sup>*"
        with step.hyps(2) show ?thesis by (meson rtrancl_into_rtrancl)
      next
        assume p: "(y2, w) \<in> (dependsEdges root N1)\<^sup>*"
        show ?thesis
        proof (cases "w' \<in> N1")
          case True
          with w'(1) have "(w, w') \<in> dependsEdges root N1" by (simp add: dependsEdges_def)
          with p show ?thesis by (meson rtrancl_into_rtrancl)
        next
          case False
          with w'(2) N1 have "w' = y \<or> w' \<in> collected root N y" by auto
          with w'(2) have "(y, w') \<in> (dependsEdges root N)\<^sup>*" by (rule collected_path)
          thus ?thesis ..
        qed
      qed
    qed
    with w(2) True show ?thesis by (auto simp: collected_def)
  qed
qed


lemma collectedFrom_Cons:
  "collectedFrom root N (y # ys) =
     (if y \<in> N then collected root N y else {}) \<union> collectedFrom root N ys"
  by (auto simp: collectedFrom_def)

lemma clearLoop_Nil: "clearLoop root [] acc m = Some (acc, m)"
  by (subst clearLoop.simps) simp

lemma clearLoop_skip:
  "y \<notin> nonNull m \<Longrightarrow> clearLoop root (y # ys) acc m = clearLoop root ys acc m"
  by (subst clearLoop.simps) (simp add: nonNull_def)

lemma clearLoop_clear:
  "y \<in> nonNull m \<Longrightarrow>
   clearLoop root (y # ys) acc m =
     Option.bind (clearLoop root (GetInputsDependingOn root y) (GetInputsDependingOn root y)
                    (fmupd y None m))
       (\<lambda>(child, m'). clearLoop root ys (acc @ child) m')"
  by (subst clearLoop.simps) (simp add: nonNull_def Let_def)

lemma clearDependentInputs_loop:
  "clearDependentInputs root changedInput inputs =
     clearLoop root (GetInputsDependingOn root changedInput)
       (GetInputsDependingOn root changedInput) inputs"
  by (simp add: clearDependentInputs_def Let_def clearLoop_Nil)

text \<open>The loop body as the source has it, with the recursive call.\<close>

lemma clearLoop_Cons:
  "clearLoop root (inputName # rest) clearedInputs inputs =
     (if lookup_input inputs inputName \<noteq> None
      then Option.bind (clearDependentInputs root inputName (fmupd inputName None inputs))
             (\<lambda>(childDependentInputs, inputs).
                 clearLoop root rest (clearedInputs @ childDependentInputs) inputs)
      else clearLoop root rest clearedInputs inputs)"
  by (simp add: clearLoop_skip clearLoop_clear clearDependentInputs_loop nonNull_def)

lemma clearedTo_nonNull: "clearedTo m C m' \<Longrightarrow> nonNull m' = nonNull m - C"
  by (auto simp: clearedTo_def nonNull_def lookup_input_def)

lemma clearLoop_correct:
  fixes m :: "'v inputs"
  shows "\<exists>s m'. clearLoop root ys acc m = Some (acc @ s, m')
           \<and> set s = collectedFrom root (nonNull m) ys
           \<and> clearedTo m (set ys \<union> collectedFrom root (nonNull m) ys) m'"
proof (induction "card (nonNull m)" arbitrary: m ys acc rule: less_induct)
  case less
  show ?case
  proof (induction ys arbitrary: acc)
    case Nil
    show ?case
      by (simp add: clearLoop_Nil collectedFrom_def clearedTo_def)
  next
    case (Cons y ys')
    let ?N = "nonNull m"
    show ?case
    proof (cases "y \<in> ?N")
      case False
      from Cons[of acc] obtain s m' where
        r: "clearLoop root ys' acc m = Some (acc @ s, m')"
           "set s = collectedFrom root ?N ys'"
           "clearedTo m (set ys' \<union> collectedFrom root ?N ys') m'"
        by blast
      from False r(3) have "clearedTo m (set (y # ys') \<union> collectedFrom root ?N (y # ys')) m'"
        by (auto simp: clearedTo_def collectedFrom_Cons)
      with False r(1,2) show ?thesis
        by (simp add: clearLoop_skip collectedFrom_Cons)
    next
      case True
      let ?my = "fmupd y None m"
      let ?ds = "GetInputsDependingOn root y"
      have Ny: "nonNull ?my = ?N - {y}" by (rule nonNull_fmupd_None)
      with True have "card (nonNull ?my) < card ?N"
        by (metis card_Diff1_less finite_nonNull)
      from less[OF this, of ?ds ?ds] obtain s1 m1 where
        r1: "clearLoop root ?ds ?ds ?my = Some (?ds @ s1, m1)"
            "set s1 = collectedFrom root (nonNull ?my) ?ds"
            "clearedTo ?my (set ?ds \<union> collectedFrom root (nonNull ?my) ?ds) m1"
        by blast
      have child: "set (?ds @ s1) = collected root ?N y"
        using r1(2) collected_unfold[of root "?N - {y}" y]
        by (simp add: Ny collected_self_removed)
      hence c1: "clearedTo ?my (collected root ?N y) m1"
        using r1(2,3) by simp
      have N1: "nonNull m1 = ?N - {y} - collected root ?N y"
        using clearedTo_nonNull[OF c1] by (simp add: Ny)
      with True have "card (nonNull m1) < card ?N"
        by (intro psubset_card_mono finite_nonNull) auto
      from less[OF this, of ys' "acc @ ?ds @ s1"] obtain s2 m2 where
        r2: "clearLoop root ys' (acc @ ?ds @ s1) m1 = Some ((acc @ ?ds @ s1) @ s2, m2)"
            "set s2 = collectedFrom root (nonNull m1) ys'"
            "clearedTo m1 (set ys' \<union> collectedFrom root (nonNull m1) ys') m2"
        by blast
      have run: "clearLoop root (y # ys') acc m = Some (acc @ (?ds @ s1 @ s2), m2)"
        using True r1(1) r2(1) by (simp add: clearLoop_clear)
      have sub: "collectedFrom root (nonNull m1) ys' \<subseteq> collectedFrom root ?N ys'"
        by (rule collectedFrom_mono) (auto simp: N1)
      have sup: "collectedFrom root ?N ys'
                   \<subseteq> collected root ?N y \<union> collectedFrom root (nonNull m1) ys'"
      proof
        fix z assume "z \<in> collectedFrom root ?N ys'"
        then obtain y2 where "y2 \<in> set ys'" "y2 \<in> ?N" "z \<in> collected root ?N y2"
          by (auto simp: collectedFrom_def)
        with collected_after_clearing[OF this(2,3) N1]
        show "z \<in> collected root ?N y \<union> collectedFrom root (nonNull m1) ys'"
          by (auto simp: collectedFrom_def)
      qed
      have sets: "set (?ds @ s1 @ s2) = collectedFrom root ?N (y # ys')"
        using child r2(2) sub sup True by (auto simp: collectedFrom_Cons)
      have "clearedTo m (set (y # ys') \<union> collectedFrom root ?N (y # ys')) m2"
        unfolding clearedTo_def
      proof
        fix k
        have k1: "fmlookup m1 k =
                    (if k \<in> nonNull ?my \<and> k \<in> collected root ?N y then Some None
                     else fmlookup ?my k)"
          using c1 by (simp add: clearedTo_def)
        have k2: "fmlookup m2 k =
                    (if k \<in> nonNull m1 \<and> (k \<in> set ys' \<or> k \<in> collectedFrom root (nonNull m1) ys')
                     then Some None else fmlookup m1 k)"
          using r2(3) by (simp add: clearedTo_def)
        show "fmlookup m2 k =
                (if k \<in> ?N \<and> k \<in> set (y # ys') \<union> collectedFrom root ?N (y # ys')
                 then Some None else fmlookup m k)"
          using True sub sup
          by (auto simp: k1 k2 N1 Ny collectedFrom_Cons)
      qed
      with run sets show ?thesis by blast
    qed
  qed
qed
lemma collected_closure:
  "collected root N x =
     set (GetInputsDependingOn root x)
       \<union> (\<Union>y \<in> {z. (x, z) \<in> (dependsEdges root N)\<^sup>+}. set (GetInputsDependingOn root y))"
  by (auto simp: collected_def rtrancl_eq_or_trancl)

lemma collected_nonNull: "collected root N x \<inter> N = {z. (x, z) \<in> (dependsEdges root N)\<^sup>+}"
proof (intro equalityI subsetI)
  fix z assume "z \<in> collected root N x \<inter> N"
  then obtain w where "(x, w) \<in> (dependsEdges root N)\<^sup>*" "(w, z) \<in> dependsEdges root N"
    by (auto simp: collected_def dependsEdges_def)
  hence "(x, z) \<in> (dependsEdges root N)\<^sup>+" by (rule rtrancl_into_trancl1)
  thus "z \<in> {z. (x, z) \<in> (dependsEdges root N)\<^sup>+}" by simp
next
  fix z assume "z \<in> {z. (x, z) \<in> (dependsEdges root N)\<^sup>+}"
  hence "(x, z) \<in> (dependsEdges root N)\<^sup>+" by simp
  then obtain w where "(x, w) \<in> (dependsEdges root N)\<^sup>*" "(w, z) \<in> dependsEdges root N"
    by (meson tranclD2)
  thus "z \<in> collected root N x \<inter> N"
    by (auto simp: collected_def dependsEdges_def)
qed

lemma specClearedSet_nonNull: "specClearedSet root inputs x \<subseteq> nonNull inputs"
  using collected_nonNull[of root "nonNull inputs" x] by (auto simp: specClearedSet_def)

lemma clearDependentInputs_result:
  "\<exists>cleared inputs'.
      clearDependentInputs root changedInput inputs = Some (cleared, inputs')
    \<and> set cleared = collected root (nonNull inputs) changedInput
    \<and> clearedTo inputs (set cleared) inputs'"
proof -
  let ?ds = "GetInputsDependingOn root changedInput"
  from clearLoop_correct[of root ?ds ?ds inputs] obtain s m' where
    r: "clearLoop root ?ds ?ds inputs = Some (?ds @ s, m')"
       "set s = collectedFrom root (nonNull inputs) ?ds"
       "clearedTo inputs (set ?ds \<union> collectedFrom root (nonNull inputs) ?ds) m'"
    by blast
  have "set (?ds @ s) = collected root (nonNull inputs) changedInput"
    using r(2) collected_unfold[of root "nonNull inputs" changedInput] by simp
  moreover from this r(2,3) have "clearedTo inputs (set (?ds @ s)) m'" by simp
  moreover have "clearDependentInputs root changedInput inputs = Some (?ds @ s, m')"
    using r(1) by (simp add: clearDependentInputs_loop)
  ultimately show ?thesis by blast
qed

text \<open>
  C5. \<^verbatim>\<open>clearDependentInputs\<close> returns for every root run, every changed input and every
  input map, whatever the declared dependencies are, cycles included: each recursive call
  is made after one more non-nil input of the finite map has been set to nil.
\<close>

theorem clearDependentInputs_terminates:
  "\<exists>cleared inputs'. clearDependentInputs root changedInput inputs = Some (cleared, inputs')"
  using clearDependentInputs_result[of root changedInput inputs] by blast

theorem clearDependentInputs_terminates_witness:
  "clearDependentInputs cyclicRoot ''A'' sampleInputs \<noteq> None
   \<and> map_option fst (clearDependentInputs cyclicRoot ''A'' sampleInputs)
       = Some [''B'', ''A'', ''B'']"
proof -
  have "clearDependentInputs cyclicRoot ''A'' sampleInputs \<noteq> None"
    using clearDependentInputs_terminates[of cyclicRoot "''A''" sampleInputs] by auto
  moreover have "map_option fst (clearDependentInputs cyclicRoot ''A'' sampleInputs)
       = Some [''B'', ''A'', ''B'']"
    by (simp add: clearDependentInputs_def cyclicRoot_def sampleInputs_def clearLoop.simps
        lookup_input_def)
  ultimately show ?thesis by simp
qed

text \<open>
  C1, as amended. \<^verbatim>\<open>clearDependentInputs\<close> returns. The names it returns are the declared
  dependents of the changed input and of every input in the closure the specification
  names (the transitive closure of declared dependents restricted to non-nil inputs),
  whether or not those dependents are themselves nil. The non-nil inputs among them are
  exactly that closure. Afterwards every returned input reads nil, and the map is
  otherwise unchanged.
\<close>

theorem clearDependentInputs_collects:
  "\<exists>cleared inputs'.
      clearDependentInputs root changedInput inputs = Some (cleared, inputs')
    \<and> set cleared =
        set (GetInputsDependingOn root changedInput)
          \<union> (\<Union>y \<in> specClearedSet root inputs changedInput. set (GetInputsDependingOn root y))
    \<and> set cleared \<inter> nonNull inputs = specClearedSet root inputs changedInput
    \<and> (\<forall>name \<in> set cleared. lookup_input inputs' name = None)
    \<and> (\<forall>name. name \<notin> specClearedSet root inputs changedInput
          \<longrightarrow> fmlookup inputs' name = fmlookup inputs name)"
proof -
  from clearDependentInputs_result[of root changedInput inputs] obtain cleared inputs' where
    r: "clearDependentInputs root changedInput inputs = Some (cleared, inputs')"
       "set cleared = collected root (nonNull inputs) changedInput"
       "clearedTo inputs (set cleared) inputs'"
    by blast
  have a: "set cleared =
        set (GetInputsDependingOn root changedInput)
          \<union> (\<Union>y \<in> specClearedSet root inputs changedInput. set (GetInputsDependingOn root y))"
    unfolding r(2) specClearedSet_def by (rule collected_closure)
  have b: "set cleared \<inter> nonNull inputs = specClearedSet root inputs changedInput"
    unfolding r(2) specClearedSet_def by (rule collected_nonNull)
  have c: "\<forall>name \<in> set cleared. lookup_input inputs' name = None"
    using r(3) by (auto simp: clearedTo_def lookup_input_def nonNull_def)
  have d: "\<forall>name. name \<notin> specClearedSet root inputs changedInput
          \<longrightarrow> fmlookup inputs' name = fmlookup inputs name"
    using r(3) b by (auto simp: clearedTo_def)
  from r(1) a b c d show ?thesis by blast
qed

theorem clearDependentInputs_collects_witness:
  "map_option fst (clearDependentInputs sampleRoot ''A'' sampleInputs) = Some [''B'', ''C'']
   \<and> specClearedSet sampleRoot sampleInputs ''A'' = {''B''}
   \<and> map_option (\<lambda>r. map (lookup_input (snd r)) [''A'', ''B'', ''C''])
        (clearDependentInputs sampleRoot ''A'' sampleInputs) = Some [Some ''x'', None, None]"
proof -
  have run: "map_option fst (clearDependentInputs sampleRoot ''A'' sampleInputs) = Some [''B'', ''C'']"
    by (simp add: clearDependentInputs_def sampleRoot_def sampleInputs_def clearLoop.simps
        lookup_input_def)
  have nn: "nonNull sampleInputs = {''A'', ''B''}"
    by (auto simp: nonNull_def sampleInputs_def lookup_input_def split: if_splits)
  from clearDependentInputs_collects[of sampleRoot "''A''" sampleInputs] obtain cleared inputs' where
    r: "clearDependentInputs sampleRoot ''A'' sampleInputs = Some (cleared, inputs')"
       "set cleared \<inter> nonNull sampleInputs = specClearedSet sampleRoot sampleInputs ''A''"
       "\<forall>name \<in> set cleared. lookup_input inputs' name = None"
       "\<forall>name. name \<notin> specClearedSet sampleRoot sampleInputs ''A''
          \<longrightarrow> fmlookup inputs' name = fmlookup sampleInputs name"
    by blast
  from r(1) run have cl: "cleared = [''B'', ''C'']" by simp
  with r(2) nn have sp: "specClearedSet sampleRoot sampleInputs ''A'' = {''B''}" by auto
  from r(4) sp have "fmlookup inputs' ''A'' = fmlookup sampleInputs ''A''" by simp
  hence "lookup_input inputs' ''A'' = Some ''x''"
    by (simp add: lookup_input_def sampleInputs_def)
  with r(1,3) cl run sp show ?thesis by simp
qed

text \<open>
  C1, as stated, fails: with \<open>C\<close> present and nil, changing \<open>B\<close> returns \<open>C\<close>, which is not in
  the closure restricted to non-nil inputs and was to be skipped.
\<close>

theorem clearDependentInputs_counterexample:
  "map_option fst (clearDependentInputs sampleRoot ''B'' sampleInputs) = Some [''C'']
   \<and> lookup_input sampleInputs ''C'' = None
   \<and> ''C'' \<notin> specClearedSet sampleRoot sampleInputs ''B''"
proof -
  have "map_option fst (clearDependentInputs sampleRoot ''B'' sampleInputs) = Some [''C'']"
    by (simp add: clearDependentInputs_def sampleRoot_def sampleInputs_def clearLoop.simps
        lookup_input_def)
  moreover have nil: "lookup_input sampleInputs ''C'' = None"
    by (simp add: sampleInputs_def lookup_input_def)
  moreover have "''C'' \<notin> specClearedSet sampleRoot sampleInputs ''B''"
    using specClearedSet_nonNull[of sampleRoot sampleInputs "''B''"] nil
    by (auto simp: nonNull_def)
  ultimately show ?thesis by simp
qed

section \<open>The registry operations\<close>

lemma getExecution_eq:
  "getExecution sessionId w =
     (executions (executor w) sessionId,
      w\<lparr>trace := trace w @ [Lock, ReadExecutions sessionId, Unlock]\<rparr>)"
  by (simp add: getExecution_def emit_def Let_def)

lemma removeExecution_eq:
  "removeExecution sessionId w =
     w\<lparr>executor := (executor w)\<lparr>executions := (executions (executor w))(sessionId := None)\<rparr>,
       trace := trace w @ [Lock, DeleteExecutions sessionId, Unlock]\<rparr>"
  by (simp add: removeExecution_def emit_def Let_def)

lemma setExecution_eq:
  "setExecution sessionId executionTree w =
     w\<lparr>executor := (executor w)
         \<lparr>executions := (executions (executor w))(sessionId \<mapsto> executionTree)\<rparr>,
       trace := trace w @ [Lock, WriteExecutions sessionId, Unlock]\<rparr>"
  by (simp add: setExecution_def emit_def Let_def)

lemma Cancel_unregistered:
  "executions (executor w) sessionId = None \<Longrightarrow>
   CancelExecutionForSession sessionId w =
     w\<lparr>trace := trace w @ [Lock, ReadExecutions sessionId, Unlock]\<rparr>"
  by (simp add: CancelExecutionForSession_def getExecution_eq)

lemma Cancel_registered:
  "executions (executor w) sessionId = Some t \<Longrightarrow>
   CancelExecutionForSession sessionId w =
     w\<lparr>executor := (executor w)\<lparr>executions := (executions (executor w))(sessionId := None)\<rparr>,
       trace := trace w @ [Lock, ReadExecutions sessionId, Unlock, Cancel t,
                           Lock, DeleteExecutions sessionId, Unlock]\<rparr>"
  by (simp add: CancelExecutionForSession_def getExecution_eq removeExecution_eq emit_def)

lemma added_append [simp]: "trace w' = trace w @ new \<Longrightarrow> added w w' = new"
  by (simp add: added_def)

text \<open>What \<^verbatim>\<open>CancelExecutionForSession\<close> leaves behind, registered or not.\<close>

lemma Cancel_summary:
  "\<exists>new. CancelExecutionForSession sessionId w =
            w\<lparr>executor := (executor w)
                \<lparr>executions := (executions (executor w))(sessionId := None)\<rparr>,
              trace := trace w @ new\<rparr>
        \<and> (\<forall>s. WriteExecutions s \<notin> set new)
        \<and> (\<forall>t c. GoExecute t c \<notin> set new)
        \<and> (\<forall>ws ev. PublishDashboardEvent ws ev \<notin> set new)
        \<and> (\<forall>t. executions (executor w) sessionId = Some t \<longrightarrow> Cancel t \<in> set new)
        \<and> guarded False new"
proof (cases "executions (executor w) sessionId")
  case None
  hence "(executions (executor w))(sessionId := None) = executions (executor w)"
    by (simp add: fun_upd_idem)
  with None show ?thesis
    by (intro exI[of _ "[Lock, ReadExecutions sessionId, Unlock]"])
       (simp add: Cancel_unregistered)
next
  case (Some t)
  thus ?thesis
    by (intro exI[of _ "[Lock, ReadExecutions sessionId, Unlock, Cancel t,
                         Lock, DeleteExecutions sessionId, Unlock]"])
       (simp add: Cancel_registered)
qed

lemma validateInputs_interactive_only:
  "interactive e' = interactive e \<Longrightarrow>
   validateInputs env e' t inputs = validateInputs env e t inputs"
  by (simp add: validateInputs_def)

text \<open>
  C6. On a session with no registered tree \<^verbatim>\<open>CancelExecutionForSession\<close> leaves the
  executor as it is and does nothing but the guarded lookup: no event, no call on a tree.
  On a session with a registered tree it calls \<^verbatim>\<open>Cancel\<close> on that tree and deletes the
  entry, so that \<^verbatim>\<open>getExecution\<close> for the session then finds nothing.
\<close>

theorem CancelExecutionForSession_effect:
  "(executions (executor w) sessionId = None \<longrightarrow>
      executor (CancelExecutionForSession sessionId w) = executor w
    \<and> added w (CancelExecutionForSession sessionId w)
        = [Lock, ReadExecutions sessionId, Unlock])
   \<and> (executions (executor w) sessionId = Some t \<longrightarrow>
      added w (CancelExecutionForSession sessionId w)
        = [Lock, ReadExecutions sessionId, Unlock, Cancel t,
           Lock, DeleteExecutions sessionId, Unlock]
    \<and> executions (executor (CancelExecutionForSession sessionId w))
        = (executions (executor w))(sessionId := None)
    \<and> fst (getExecution sessionId (CancelExecutionForSession sessionId w)) = None)"
  by (simp add: Cancel_unregistered Cancel_registered getExecution_eq)

theorem CancelExecutionForSession_effect_witness:
  "executions (executor (freshWorld True)) ''s1'' = None
   \<and> executor (CancelExecutionForSession ''s1'' (freshWorld True)) = executor (freshWorld True)
   \<and> added (freshWorld True) (CancelExecutionForSession ''s1'' (freshWorld True))
       = [Lock, ReadExecutions ''s1'', Unlock]
   \<and> executions (executor (registeredWorld True sampleTree)) ''s1'' = Some sampleTree
   \<and> added (registeredWorld True sampleTree) (CancelExecutionForSession ''s1'' (registeredWorld True sampleTree))
       = [Lock, ReadExecutions ''s1'', Unlock, Cancel sampleTree,
          Lock, DeleteExecutions ''s1'', Unlock]
   \<and> fst (getExecution ''s1'' (CancelExecutionForSession ''s1'' (registeredWorld True sampleTree))) = None"
proof -
  have a: "executions (executor (freshWorld True)) ''s1'' = None"
    by (simp add: freshWorld_def NewDashboardExecutor_def)
  have b: "executions (executor (registeredWorld True sampleTree)) ''s1'' = Some sampleTree"
    by (simp add: registeredWorld_def NewDashboardExecutor_def)
  from a b
    CancelExecutionForSession_effect[of "freshWorld True" "''s1''" sampleTree]
    CancelExecutionForSession_effect[of "registeredWorld True sampleTree" "''s1''" sampleTree]
  show ?thesis by simp
qed

text \<open>
  C7. For a session with no entry in \<^verbatim>\<open>executions\<close>, \<^verbatim>\<open>OnInputChanged\<close> returns the error
  "no dashboard running for session" followed by the session id; all it has done by then
  is read the map, so no event is published.
\<close>

theorem OnInputChanged_unknown_session:
  "executions (executor w) sessionId = None \<Longrightarrow>
   \<exists>w'. OnInputChanged env ctx sessionId inputs changedInput w
           = Some (Some (''no dashboard running for session '' @ sessionId), w')
       \<and> executor w' = executor w
       \<and> added w w' = [ReadExecutions sessionId]"
  by (simp add: OnInputChanged_def emit_def)

theorem OnInputChanged_unknown_session_witness:
  "executions (executor (freshWorld True)) ''nope'' = None
   \<and> map_option fst (OnInputChanged sampleEnv \<lparr>Err = None\<rparr> ''nope'' fmempty ''x'' (freshWorld True))
       = Some (Some ''no dashboard running for session nope'')
   \<and> map_option (\<lambda>r. added (freshWorld True) (snd r))
        (OnInputChanged sampleEnv \<lparr>Err = None\<rparr> ''nope'' fmempty ''x'' (freshWorld True))
       = Some [ReadExecutions ''nope'']"
proof -
  have a: "executions (executor (freshWorld True)) ''nope'' = None"
    by (simp add: freshWorld_def NewDashboardExecutor_def)
  from OnInputChanged_unknown_session[OF a, of sampleEnv "\<lparr>Err = None\<rparr>" fmempty "''x''"] a
  show ?thesis by auto
qed

text \<open>
  C10. \<^verbatim>\<open>NewDashboardExecutor\<close> returns an executor with an empty \<^verbatim>\<open>executions\<close> map and
  \<^verbatim>\<open>interactive\<close> set; for an interactive executor \<^verbatim>\<open>validateInputs\<close> returns nil whatever
  the tree and the inputs are.
\<close>

theorem NewDashboardExecutor_interactive:
  fixes e :: "('v, 'res, 'ws, 'cl) DashboardExecutor"
    and env :: "('v, 'res, 'ws, 'cl, 'opt) collaborators"
  shows "executions (NewDashboardExecutor client :: ('v, 'res, 'ws, 'cl) DashboardExecutor)
           = Map.empty
   \<and> interactive (NewDashboardExecutor client :: ('v, 'res, 'ws, 'cl) DashboardExecutor)
   \<and> validateInputs env (NewDashboardExecutor client) executionTree inputs = None
   \<and> (interactive e \<longrightarrow> validateInputs env e executionTree inputs = None)"
  by (simp add: NewDashboardExecutor_def validateInputs_def)

theorem NewDashboardExecutor_interactive_witness:
  "interactive (executor (freshWorld True))
   \<and> validateInputs sampleEnv (executor (freshWorld True)) sampleTree fmempty = None
   \<and> validateInputs sampleEnv (executor (freshWorld False)) sampleTree fmempty
       = Some (''input 'region' must be provided using '--arg name=value'' @ [CHR 0x27])"
proof -
  have a: "interactive (executor (freshWorld True))"
    by (simp add: freshWorld_def NewDashboardExecutor_def)
  have b: "validateInputs sampleEnv (executor (freshWorld False)) sampleTree fmempty
       = Some (''input 'region' must be provided using '--arg name=value'' @ [CHR 0x27])"
    by (simp add: validateInputs_def freshWorld_def NewDashboardExecutor_def sampleEnv_def
        sampleTree_def)
  from a NewDashboardExecutor_interactive[of "()" sampleEnv sampleTree fmempty "executor (freshWorld True)"]
  have "validateInputs sampleEnv (executor (freshWorld True)) sampleTree fmempty = None"
    by blast
  with a b show ?thesis by simp
qed

section \<open>Starting an execution\<close>

lemma Cancel_keeps_settings:
  "interactive (executor (CancelExecutionForSession sessionId w)) = interactive (executor w)"
  "defaultClient (executor (CancelExecutionForSession sessionId w)) = defaultClient (executor w)"
  using Cancel_summary[of sessionId w] by auto

lemma body_construction_error:
  "newDashboardExecutionTree env rootResource sessionId workspace
       (defaultClient (executor w)) opts = Inl err \<Longrightarrow>
   ExecuteDashboard_body env ctx sessionId rootResource inputs workspace opts w
     = (Some err, CancelExecutionForSession sessionId w)"
  by (simp add: ExecuteDashboard_body_def Cancel_keeps_settings)

lemma body_validation_error:
  "newDashboardExecutionTree env rootResource sessionId workspace
       (defaultClient (executor w)) opts = Inr t \<Longrightarrow>
   validateInputs env (executor w) t inputs = Some err \<Longrightarrow>
   ExecuteDashboard_body env ctx sessionId rootResource inputs workspace opts w
     = (Some err, CancelExecutionForSession sessionId w)"
  using validateInputs_interactive_only[OF Cancel_keeps_settings(1), of env sessionId w t inputs]
  by (simp add: ExecuteDashboard_body_def Cancel_keeps_settings)

lemma body_started:
  "newDashboardExecutionTree env rootResource sessionId workspace
       (defaultClient (executor w)) opts = Inr t \<Longrightarrow>
   validateInputs env (executor w) t inputs = None \<Longrightarrow>
   ExecuteDashboard_body env ctx sessionId rootResource inputs workspace opts w
     = (None,
        emit (GoExecute t ctx)
          ((if len inputs > 0 then emit (SetInputValues t inputs) else id)
             (setExecution sessionId t (CancelExecutionForSession sessionId w))))"
  using validateInputs_interactive_only[OF Cancel_keeps_settings(1), of env sessionId w t inputs]
  by (simp add: ExecuteDashboard_body_def Cancel_keeps_settings Let_def)

lemma deferred_error:
  "ExecuteDashboard_deferred env ctx sessionId workspace (Some err, w)
     = (Some err, emit (PublishDashboardEvent workspace (ExecutionError err sessionId (Now env))) w)"
  by (simp add: ExecuteDashboard_deferred_def)

lemma deferred_returns_error:
  "fst (ExecuteDashboard_deferred env ctx sessionId workspace r) = Some err \<Longrightarrow>
   snd (ExecuteDashboard_deferred env ctx sessionId workspace r)
     = emit (PublishDashboardEvent workspace (ExecutionError err sessionId (Now env))) (snd r)"
  by (cases r) (auto simp: ExecuteDashboard_deferred_def Let_def split: option.splits if_splits)

lemma deferred_keeps_executor:
  "executor (snd (ExecuteDashboard_deferred env ctx sessionId workspace r)) = executor (snd r)"
  by (cases r) (auto simp: ExecuteDashboard_deferred_def Let_def emit_def split: option.splits)

lemma deferred_trace:
  "\<exists>new. trace (snd (ExecuteDashboard_deferred env ctx sessionId workspace r))
            = trace (snd r) @ new
        \<and> (\<forall>t. Cancel t \<notin> set new)"
  by (cases r) (auto simp: ExecuteDashboard_deferred_def Let_def emit_def split: option.splits)

lemma body_trace:
  "\<exists>new. trace (snd (ExecuteDashboard_body env ctx sessionId rootResource inputs workspace opts w))
            = trace w @ new
        \<and> (\<forall>t. executions (executor w) sessionId = Some t \<longrightarrow> Cancel t \<in> set new)"
proof -
  from Cancel_summary[of sessionId w] obtain new where
    c: "trace (CancelExecutionForSession sessionId w) = trace w @ new"
       "\<forall>t. executions (executor w) sessionId = Some t \<longrightarrow> Cancel t \<in> set new"
    by auto
  show ?thesis
  proof (cases "newDashboardExecutionTree env rootResource sessionId workspace
                  (defaultClient (executor w)) opts")
    case (Inl err)
    with c show ?thesis by (simp add: body_construction_error)
  next
    case (Inr t)
    show ?thesis
    proof (cases "validateInputs env (executor w) t inputs")
      case (Some err)
      with Inr c show ?thesis by (simp add: body_validation_error)
    next
      case None
      with Inr c show ?thesis
        by (simp add: body_started setExecution_eq emit_def)
    qed
  qed
qed

lemma ExecuteDashboard_trace:
  "\<exists>new. trace (snd (ExecuteDashboard env ctx sessionId rootResource inputs workspace opts w))
            = trace w @ new
        \<and> (\<forall>t. executions (executor w) sessionId = Some t \<longrightarrow> Cancel t \<in> set new)"
proof -
  let ?b = "ExecuteDashboard_body env ctx sessionId rootResource inputs workspace opts w"
  from body_trace[of env ctx sessionId rootResource inputs workspace opts w] obtain n1 where
    b: "trace (snd ?b) = trace w @ n1"
       "\<forall>t. executions (executor w) sessionId = Some t \<longrightarrow> Cancel t \<in> set n1"
    by blast
  from deferred_trace[of env ctx sessionId workspace ?b] obtain n2 where
    d: "trace (snd (ExecuteDashboard_deferred env ctx sessionId workspace ?b))
          = trace (snd ?b) @ n2"
    by blast
  from b d show ?thesis
    by (intro exI[of _ "n1 @ n2"]) (simp add: ExecuteDashboard_def)
qed

lemma ExecuteDashboard_failed:
  assumes "ExecuteDashboard_body env ctx sessionId rootResource inputs workspace opts w
             = (Some err, CancelExecutionForSession sessionId w)"
  shows "\<exists>w'. ExecuteDashboard env ctx sessionId rootResource inputs workspace opts w
                 = (Some err, w')
             \<and> executions (executor w') = (executions (executor w))(sessionId := None)
             \<and> (\<forall>s. WriteExecutions s \<notin> set (added w w'))
             \<and> (\<forall>t c. GoExecute t c \<notin> set (added w w'))
             \<and> (\<forall>t. executions (executor w) sessionId = Some t \<longrightarrow> Cancel t \<in> set (added w w'))
             \<and> (\<exists>before. added w w' = before
                   @ [PublishDashboardEvent workspace (ExecutionError err sessionId (Now env))])"
proof -
  from Cancel_summary[of sessionId w] obtain new where
    c: "CancelExecutionForSession sessionId w =
            w\<lparr>executor := (executor w)
                \<lparr>executions := (executions (executor w))(sessionId := None)\<rparr>,
              trace := trace w @ new\<rparr>"
       "\<forall>s. WriteExecutions s \<notin> set new"
       "\<forall>t c. GoExecute t c \<notin> set new"
       "\<forall>t. executions (executor w) sessionId = Some t \<longrightarrow> Cancel t \<in> set new"
    by blast
  let ?ev = "PublishDashboardEvent workspace (ExecutionError err sessionId (Now env))"
  let ?w' = "emit ?ev (CancelExecutionForSession sessionId w)"
  have run: "ExecuteDashboard env ctx sessionId rootResource inputs workspace opts w
               = (Some err, ?w')"
    by (simp add: ExecuteDashboard_def assms deferred_error)
  have tr: "trace ?w' = trace w @ (new @ [?ev])"
    by (simp add: emit_def c(1))
  have ex: "executions (executor ?w') = (executions (executor w))(sessionId := None)"
    by (simp add: emit_def c(1))
  from tr have ad: "added w ?w' = new @ [?ev]" by (rule added_append)
  from run ex c(2,3,4) ad show ?thesis
    by (intro exI[of _ ?w']) simp
qed

text \<open>
  C3. In batch mode (\<^verbatim>\<open>interactive\<close> false), when the tree that was built has input runtime
  dependencies that are not keys of the supplied inputs, \<^verbatim>\<open>ExecuteDashboard\<close> returns the
  error "<input, pluralized by the number missing> '<the missing names, comma separated>'
  must be provided using '--arg name=value'". It returns before \<^verbatim>\<open>setExecution\<close>: the map
  is never written, the session has no entry afterwards, and no execution is started.
\<close>

theorem ExecuteDashboard_missing_inputs:
  assumes "\<not> interactive (executor w)"
    and "newDashboardExecutionTree env rootResource sessionId workspace
           (defaultClient (executor w)) opts = Inr executionTree"
    and "missing = filter (\<lambda>name. fmlookup inputs name = None)
                     (InputRuntimeDependencies executionTree)"
    and "missing \<noteq> []"
  shows "\<exists>w'. ExecuteDashboard env ctx sessionId rootResource inputs workspace opts w
                 = (Some (Pluralize env ''input'' (length missing) @ '' ''
                          @ [CHR 0x27] @ Join missing '','' @ [CHR 0x27]
                          @ '' must be provided using '--arg name=value'' @ [CHR 0x27]), w')
             \<and> executions (executor w') = (executions (executor w))(sessionId := None)
             \<and> (\<forall>s. WriteExecutions s \<notin> set (added w w'))
             \<and> (\<forall>t c. GoExecute t c \<notin> set (added w w'))"
proof -
  let ?msg = "Pluralize env ''input'' (length missing) @ '' ''
                @ [CHR 0x27] @ Join missing '','' @ [CHR 0x27]
                @ '' must be provided using '--arg name=value'' @ [CHR 0x27]"
  have "validateInputs env (executor w) executionTree inputs = Some ?msg"
    using assms(1,3,4) by (simp add: validateInputs_def Let_def)
  with assms(2) have
    "ExecuteDashboard_body env ctx sessionId rootResource inputs workspace opts w
       = (Some ?msg, CancelExecutionForSession sessionId w)"
    by (rule body_validation_error)
  from ExecuteDashboard_failed[OF this] show ?thesis by blast
qed

theorem ExecuteDashboard_missing_inputs_witness:
  "\<not> interactive (executor (registeredWorld False sampleTree))
   \<and> fst (ExecuteDashboard sampleEnv \<lparr>Err = None\<rparr> ''s1'' ''dashboard.sample'' fmempty ''ws'' []
            (registeredWorld False sampleTree))
       = Some (''input 'region' must be provided using '--arg name=value'' @ [CHR 0x27])
   \<and> executions (executor (snd (ExecuteDashboard sampleEnv \<lparr>Err = None\<rparr> ''s1''
                                   ''dashboard.sample'' fmempty ''ws'' [] (registeredWorld False sampleTree))))
        ''s1'' = None"
proof -
  have a: "\<not> interactive (executor (registeredWorld False sampleTree))"
    by (simp add: registeredWorld_def)
  have b: "newDashboardExecutionTree sampleEnv ''dashboard.sample'' ''s1'' ''ws''
             (defaultClient (executor (registeredWorld False sampleTree))) [] = Inr sampleTree"
    by (simp add: sampleEnv_def)
  have c: "[''region''] = filter (\<lambda>name. fmlookup (fmempty :: string inputs) name = None)
                            (InputRuntimeDependencies sampleTree)"
    by (simp add: sampleTree_def)
  have d: "[''region''] \<noteq> []" by simp
  have p: "Pluralize sampleEnv ''input'' (length [''region'']) = ''input''"
    by (simp add: sampleEnv_def)
  from ExecuteDashboard_missing_inputs[OF a b c d, of "\<lparr>Err = None\<rparr>"] a p
  show ?thesis by auto
qed

text \<open>
  C4. When \<^verbatim>\<open>ctx.Err()\<close> is the deadline error at return and the body has returned no error
  (the tree was built and the inputs validated), \<^verbatim>\<open>ExecuteDashboard\<close> returns the error
  "execution timed out". Whenever it returns an error, the last thing it has done is to
  publish, on the workspace it was given, an \<^verbatim>\<open>ExecutionError\<close> event with that error and
  the session id.
\<close>

theorem ExecuteDashboard_timeout_and_error_event:
  "(Err ctx = Some DeadlineExceeded
      \<and> newDashboardExecutionTree env rootResource sessionId workspace
           (defaultClient (executor w)) opts = Inr executionTree
      \<and> validateInputs env (executor w) executionTree inputs = None
     \<longrightarrow> fst (ExecuteDashboard env ctx sessionId rootResource inputs workspace opts w)
           = Some ''execution timed out'')
   \<and> (fst (ExecuteDashboard env ctx sessionId rootResource inputs workspace opts w) = Some err
     \<longrightarrow> (\<exists>before.
            added w (snd (ExecuteDashboard env ctx sessionId rootResource inputs workspace opts w))
              = before
                @ [PublishDashboardEvent workspace (ExecutionError err sessionId (Now env))]))"
proof (intro conjI impI)
  assume "Err ctx = Some DeadlineExceeded
      \<and> newDashboardExecutionTree env rootResource sessionId workspace
           (defaultClient (executor w)) opts = Inr executionTree
      \<and> validateInputs env (executor w) executionTree inputs = None"
  thus "fst (ExecuteDashboard env ctx sessionId rootResource inputs workspace opts w)
           = Some ''execution timed out''"
    by (simp add: ExecuteDashboard_def body_started ExecuteDashboard_deferred_def)
next
  let ?b = "ExecuteDashboard_body env ctx sessionId rootResource inputs workspace opts w"
  let ?ev = "PublishDashboardEvent workspace (ExecutionError err sessionId (Now env))"
  assume "fst (ExecuteDashboard env ctx sessionId rootResource inputs workspace opts w) = Some err"
  hence "snd (ExecuteDashboard env ctx sessionId rootResource inputs workspace opts w)
           = emit ?ev (snd ?b)"
    unfolding ExecuteDashboard_def by (rule deferred_returns_error)
  moreover from body_trace[of env ctx sessionId rootResource inputs workspace opts w]
  obtain new where "trace (snd ?b) = trace w @ new" by blast
  ultimately have
    "trace (snd (ExecuteDashboard env ctx sessionId rootResource inputs workspace opts w))
       = trace w @ (new @ [?ev])"
    by (simp add: emit_def)
  hence "added w (snd (ExecuteDashboard env ctx sessionId rootResource inputs workspace opts w))
           = new @ [?ev]"
    by (rule added_append)
  thus "\<exists>before.
          added w (snd (ExecuteDashboard env ctx sessionId rootResource inputs workspace opts w))
            = before @ [?ev]"
    by blast
qed

theorem ExecuteDashboard_timeout_and_error_event_witness:
  "fst (ExecuteDashboard sampleEnv \<lparr>Err = Some DeadlineExceeded\<rparr> ''s1'' ''dashboard.sample''
          fmempty ''ws'' [] (freshWorld True))
     = Some ''execution timed out''
   \<and> (\<exists>before.
        added (freshWorld True)
          (snd (ExecuteDashboard sampleEnv \<lparr>Err = Some DeadlineExceeded\<rparr> ''s1''
                  ''dashboard.sample'' fmempty ''ws'' [] (freshWorld True)))
        = before @ [PublishDashboardEvent ''ws'' (ExecutionError ''execution timed out'' ''s1'' 0)])"
proof -
  have a: "Err \<lparr>Err = Some DeadlineExceeded\<rparr> = Some DeadlineExceeded" by simp
  have b: "newDashboardExecutionTree sampleEnv ''dashboard.sample'' ''s1'' ''ws''
             (defaultClient (executor (freshWorld True))) [] = Inr sampleTree"
    by (simp add: sampleEnv_def)
  have c: "validateInputs sampleEnv (executor (freshWorld True)) sampleTree fmempty = None"
    by (simp add: validateInputs_def freshWorld_def NewDashboardExecutor_def)
  have n: "Now sampleEnv = 0" by (simp add: sampleEnv_def)
  from ExecuteDashboard_timeout_and_error_event[of "\<lparr>Err = Some DeadlineExceeded\<rparr>" sampleEnv
         "''dashboard.sample''" "''s1''" "''ws''" "freshWorld True" "[]" sampleTree fmempty
         "''execution timed out''"] a b c n
  show ?thesis by simp
qed

text \<open>
  C9, as amended. When \<^verbatim>\<open>ExecuteDashboard\<close> fails because the tree could not be built or
  because batch-mode validation failed, it returns that error and the session ends with no
  execution registered: a tree registered before has been cancelled and its entry
  deleted, and the map is never written.
\<close>

theorem ExecuteDashboard_failure_leaves_no_execution:
  assumes "newDashboardExecutionTree env rootResource sessionId workspace
             (defaultClient (executor w)) opts = Inl err
           \<or> (newDashboardExecutionTree env rootResource sessionId workspace
                (defaultClient (executor w)) opts = Inr executionTree
              \<and> validateInputs env (executor w) executionTree inputs = Some err)"
  shows "\<exists>w'. ExecuteDashboard env ctx sessionId rootResource inputs workspace opts w
                 = (Some err, w')
             \<and> executions (executor w') sessionId = None
             \<and> executions (executor w') = (executions (executor w))(sessionId := None)
             \<and> (\<forall>s. WriteExecutions s \<notin> set (added w w'))
             \<and> (\<forall>t. executions (executor w) sessionId = Some t
                    \<longrightarrow> Cancel t \<in> set (added w w'))"
proof -
  have "ExecuteDashboard_body env ctx sessionId rootResource inputs workspace opts w
          = (Some err, CancelExecutionForSession sessionId w)"
    using assms by (auto simp: body_construction_error body_validation_error)
  from ExecuteDashboard_failed[OF this] obtain w' where
    r: "ExecuteDashboard env ctx sessionId rootResource inputs workspace opts w = (Some err, w')"
       "executions (executor w') = (executions (executor w))(sessionId := None)"
       "\<forall>s. WriteExecutions s \<notin> set (added w w')"
       "\<forall>t. executions (executor w) sessionId = Some t \<longrightarrow> Cancel t \<in> set (added w w')"
    by blast
  from r(2) have "executions (executor w') sessionId = None" by simp
  with r show ?thesis by blast
qed

theorem ExecuteDashboard_failure_leaves_no_execution_witness:
  "executions (executor (registeredWorld True sampleTree)) ''s1'' = Some sampleTree
   \<and> fst (ExecuteDashboard failingEnv \<lparr>Err = None\<rparr> ''s1'' ''dashboard.sample'' fmempty ''ws'' []
            (registeredWorld True sampleTree)) = Some ''resource not found''
   \<and> executions (executor (snd (ExecuteDashboard failingEnv \<lparr>Err = None\<rparr> ''s1''
                                   ''dashboard.sample'' fmempty ''ws'' [] (registeredWorld True sampleTree))))
        ''s1'' = None
   \<and> Cancel sampleTree
        \<in> set (added (registeredWorld True sampleTree)
                 (snd (ExecuteDashboard failingEnv \<lparr>Err = None\<rparr> ''s1''
                         ''dashboard.sample'' fmempty ''ws'' [] (registeredWorld True sampleTree))))"
proof -
  have a: "executions (executor (registeredWorld True sampleTree)) ''s1'' = Some sampleTree"
    by (simp add: registeredWorld_def)
  have b: "newDashboardExecutionTree failingEnv ''dashboard.sample'' ''s1'' ''ws''
             (defaultClient (executor (registeredWorld True sampleTree))) [] = Inl ''resource not found''"
    by (simp add: failingEnv_def)
  from ExecuteDashboard_failure_leaves_no_execution[OF disjI1, OF b, of "\<lparr>Err = None\<rparr>" fmempty] a
  show ?thesis by auto
qed

text \<open>
  C9, as stated, fails: with the deadline passed, \<^verbatim>\<open>ExecuteDashboard\<close> returns the error
  "execution timed out" after the new tree has been registered.
\<close>

theorem ExecuteDashboard_error_yet_registered:
  "fst (ExecuteDashboard sampleEnv \<lparr>Err = Some DeadlineExceeded\<rparr> ''s1'' ''dashboard.sample''
          fmempty ''ws'' [] (freshWorld True))
     = Some ''execution timed out''
   \<and> executions (executor (snd (ExecuteDashboard sampleEnv \<lparr>Err = Some DeadlineExceeded\<rparr> ''s1''
                                   ''dashboard.sample'' fmempty ''ws'' [] (freshWorld True))))
        ''s1'' = Some sampleTree"
  by (simp add: ExecuteDashboard_def ExecuteDashboard_body_def ExecuteDashboard_deferred_def
      CancelExecutionForSession_def getExecution_eq setExecution_eq validateInputs_def
      freshWorld_def NewDashboardExecutor_def sampleEnv_def emit_def len_def Let_def)

section \<open>Changing an input\<close>

text \<open>
  C2. For a session with a registered tree, \<^verbatim>\<open>OnInputChanged\<close> clears the dependent inputs,
  publishes \<^verbatim>\<open>InputValuesCleared\<close> if any were returned, and then: if the tree's run status is
  finished or the tree's previous value of the changed input is non-nil, its result is that
  of \<^verbatim>\<open>ExecuteDashboard\<close> on the tree's root resource with the cleared inputs, which cancels
  the registered tree; otherwise it calls \<^verbatim>\<open>SetInputValues\<close> on the registered tree with the
  cleared inputs and returns nil, without cancelling or starting anything.
\<close>

theorem OnInputChanged_restart_or_apply:
  assumes "executions (executor w) sessionId = Some t"
  shows "\<exists>cleared inputs' w1.
      clearDependentInputs (Root t) changedInput inputs = Some (cleared, inputs')
    \<and> w1 = (if length cleared > 0
            then emit (PublishDashboardEvent (tree_workspace t)
                         (InputValuesCleared cleared (tree_sessionId t) (tree_id t)))
                   (emit (ReadExecutions sessionId) w)
            else emit (ReadExecutions sessionId) w)
    \<and> (if IsFinished (GetRunStatus t) \<or> lookup_input (inputValues t) changedInput \<noteq> None
       then OnInputChanged env ctx sessionId inputs changedInput w
              = Some (ExecuteDashboard env ctx sessionId (GetResource (Root t)) inputs'
                        (tree_workspace t) [] w1)
          \<and> Cancel t \<in> set (added w (snd (ExecuteDashboard env ctx sessionId
                                              (GetResource (Root t)) inputs'
                                              (tree_workspace t) [] w1)))
       else OnInputChanged env ctx sessionId inputs changedInput w
              = Some (None, emit (SetInputValues t inputs') w1)
          \<and> (\<forall>t'. Cancel t' \<notin> set (added w (emit (SetInputValues t inputs') w1)))
          \<and> (\<forall>t' c. GoExecute t' c \<notin> set (added w (emit (SetInputValues t inputs') w1))))"
proof -
  from clearDependentInputs_result[of "Root t" changedInput inputs] obtain cleared inputs' where
    c: "clearDependentInputs (Root t) changedInput inputs = Some (cleared, inputs')"
    by blast
  let ?w0 = "emit (ReadExecutions sessionId) w"
  let ?ev = "PublishDashboardEvent (tree_workspace t)
               (InputValuesCleared cleared (tree_sessionId t) (tree_id t))"
  let ?w1 = "if length cleared > 0 then emit ?ev ?w0 else ?w0"
  let ?restart = "IsFinished (GetRunStatus t) \<or> lookup_input (inputValues t) changedInput \<noteq> None"
  let ?E = "ExecuteDashboard env ctx sessionId (GetResource (Root t)) inputs'
              (tree_workspace t) [] ?w1"
  obtain pre where pre: "trace ?w1 = trace w @ pre" "\<forall>t'. Cancel t' \<notin> set pre"
    "\<forall>t' c. GoExecute t' c \<notin> set pre"
    by (cases "length cleared > 0") (auto simp: emit_def)
  have reg: "executions (executor ?w1) sessionId = Some t"
    using assms by (simp add: emit_def)
  show ?thesis
  proof (cases ?restart)
    case True
    hence run: "OnInputChanged env ctx sessionId inputs changedInput w = Some ?E"
      using assms c by (auto simp: OnInputChanged_def Let_def)
    from ExecuteDashboard_trace[of env ctx sessionId "GetResource (Root t)" inputs'
           "tree_workspace t" "[]" ?w1] reg
    obtain new where "trace (snd ?E) = trace ?w1 @ new" "Cancel t \<in> set new"
      by blast
    with pre(1) have "trace (snd ?E) = trace w @ (pre @ new)" by simp
    hence "added w (snd ?E) = pre @ new" by (rule added_append)
    with \<open>Cancel t \<in> set new\<close> have "Cancel t \<in> set (added w (snd ?E))" by simp
    with True run c show ?thesis by (intro exI[of _ cleared] exI[of _ inputs'] exI[of _ ?w1]) simp
  next
    case False
    hence run: "OnInputChanged env ctx sessionId inputs changedInput w
                  = Some (None, emit (SetInputValues t inputs') ?w1)"
      using assms c by (auto simp: OnInputChanged_def Let_def)
    have "trace (emit (SetInputValues t inputs') ?w1) = trace w @ (pre @ [SetInputValues t inputs'])"
      using pre(1) by (simp add: emit_def)
    hence "added w (emit (SetInputValues t inputs') ?w1) = pre @ [SetInputValues t inputs']"
      by (rule added_append)
    with pre(2,3) have
      "\<forall>t'. Cancel t' \<notin> set (added w (emit (SetInputValues t inputs') ?w1))"
      "\<forall>t' c. GoExecute t' c \<notin> set (added w (emit (SetInputValues t inputs') ?w1))"
      by simp_all
    with False run c show ?thesis by (intro exI[of _ cleared] exI[of _ inputs'] exI[of _ ?w1]) simp
  qed
qed

theorem OnInputChanged_restart_or_apply_witness:
  "OnInputChanged sampleEnv \<lparr>Err = None\<rparr> ''s1'' sampleInputs ''A'' (registeredWorld True sampleTree)
     = Some (None,
         emit (SetInputValues sampleTree (fmupd ''B'' None sampleInputs))
           (emit (PublishDashboardEvent ''ws'' (InputValuesCleared [''B'', ''C''] ''s1'' ''e1''))
              (emit (ReadExecutions ''s1'') (registeredWorld True sampleTree))))
   \<and> OnInputChanged sampleEnv \<lparr>Err = None\<rparr> ''s1'' sampleInputs ''A''
       (registeredWorld True (sampleTree\<lparr>GetRunStatus := RunComplete\<rparr>))
     = Some (ExecuteDashboard sampleEnv \<lparr>Err = None\<rparr> ''s1'' ''dashboard.sample''
               (fmupd ''B'' None sampleInputs) ''ws'' []
               (emit (PublishDashboardEvent ''ws'' (InputValuesCleared [''B'', ''C''] ''s1'' ''e1''))
                  (emit (ReadExecutions ''s1'')
                     (registeredWorld True (sampleTree\<lparr>GetRunStatus := RunComplete\<rparr>)))))"
proof -
  have cl: "clearDependentInputs sampleRoot ''A'' sampleInputs
              = Some ([''B'', ''C''], fmupd ''B'' None sampleInputs)"
    by (simp add: clearDependentInputs_def sampleRoot_def sampleInputs_def clearLoop.simps
        lookup_input_def)
  have r1: "executions (executor (registeredWorld True sampleTree)) ''s1'' = Some sampleTree"
    by (simp add: registeredWorld_def)
  have r2: "executions (executor (registeredWorld True (sampleTree\<lparr>GetRunStatus := RunComplete\<rparr>)))
              ''s1'' = Some (sampleTree\<lparr>GetRunStatus := RunComplete\<rparr>)"
    by (simp add: registeredWorld_def)
  have f: "Root sampleTree = sampleRoot" "tree_workspace sampleTree = ''ws''"
    "tree_sessionId sampleTree = ''s1''" "tree_id sampleTree = ''e1''"
    "GetRunStatus sampleTree = RunRunning" "inputValues sampleTree = fmempty"
    "GetResource sampleRoot = ''dashboard.sample''"
    by (simp_all add: sampleTree_def sampleRoot_def)
  from OnInputChanged_restart_or_apply[OF r1, of "''A''" sampleInputs sampleEnv "\<lparr>Err = None\<rparr>"]
  have a: "OnInputChanged sampleEnv \<lparr>Err = None\<rparr> ''s1'' sampleInputs ''A''
             (registeredWorld True sampleTree)
     = Some (None,
         emit (SetInputValues sampleTree (fmupd ''B'' None sampleInputs))
           (emit (PublishDashboardEvent ''ws'' (InputValuesCleared [''B'', ''C''] ''s1'' ''e1''))
              (emit (ReadExecutions ''s1'') (registeredWorld True sampleTree))))"
    by (auto simp: cl f lookup_input_def)
  from OnInputChanged_restart_or_apply[OF r2, of "''A''" sampleInputs sampleEnv "\<lparr>Err = None\<rparr>"]
  have b: "OnInputChanged sampleEnv \<lparr>Err = None\<rparr> ''s1'' sampleInputs ''A''
       (registeredWorld True (sampleTree\<lparr>GetRunStatus := RunComplete\<rparr>))
     = Some (ExecuteDashboard sampleEnv \<lparr>Err = None\<rparr> ''s1'' ''dashboard.sample''
               (fmupd ''B'' None sampleInputs) ''ws'' []
               (emit (PublishDashboardEvent ''ws'' (InputValuesCleared [''B'', ''C''] ''s1'' ''e1''))
                  (emit (ReadExecutions ''s1'')
                     (registeredWorld True (sampleTree\<lparr>GetRunStatus := RunComplete\<rparr>)))))"
    by (auto simp: cl f lookup_input_def)
  from a b show ?thesis by simp
qed

section \<open>Lock discipline\<close>

text \<open>
  \<^verbatim>\<open>CancelExecutionForSession\<close> and \<^verbatim>\<open>ExecuteDashboard\<close> touch \<^verbatim>\<open>executions\<close> only with the
  mutex held, and \<^verbatim>\<open>ExecuteDashboard\<close> starts the tree after releasing it.
\<close>

lemma CancelExecutionForSession_guarded:
  "guarded False (added w (CancelExecutionForSession sessionId w))"
  by (cases "executions (executor w) sessionId")
     (simp_all add: Cancel_unregistered Cancel_registered)

lemma ExecuteDashboard_guarded:
  "guarded False
     (added w (snd (ExecuteDashboard env ctx sessionId rootResource inputs workspace opts w)))"
  "executesUnlocked False
     (added w (snd (ExecuteDashboard env ctx sessionId rootResource inputs workspace opts w)))"
  by (cases "executions (executor w) sessionId";
      auto simp: ExecuteDashboard_def ExecuteDashboard_body_def ExecuteDashboard_deferred_def
        Cancel_unregistered Cancel_registered setExecution_eq emit_def added_def Let_def
      split: sum.splits option.splits)+

text \<open>
  Whatever the session, the first thing \<^verbatim>\<open>OnInputChanged\<close> does is read \<^verbatim>\<open>executions\<close>
  with the mutex not taken.
\<close>

lemma OnInputChanged_unguarded:
  assumes "OnInputChanged env ctx sessionId inputs changedInput w = Some r"
  shows "\<exists>rest. added w (snd r) = ReadExecutions sessionId # rest"
    and "\<not> guarded False (added w (snd r))"
proof -
  show "\<exists>rest. added w (snd r) = ReadExecutions sessionId # rest"
  proof (cases "executions (executor w) sessionId")
    case None
    from OnInputChanged_def[of env ctx sessionId inputs changedInput w] None assms
    have "trace (snd r) = trace w @ [ReadExecutions sessionId]"
      by (auto simp: emit_def)
    hence "added w (snd r) = [ReadExecutions sessionId]" by (rule added_append)
    thus ?thesis by simp
  next
    case (Some t)
    from clearDependentInputs_result[of "Root t" changedInput inputs] obtain cleared inputs' where
      c: "clearDependentInputs (Root t) changedInput inputs = Some (cleared, inputs')"
      by blast
    let ?w0 = "emit (ReadExecutions sessionId) w"
    let ?ev = "PublishDashboardEvent (tree_workspace t)
                 (InputValuesCleared cleared (tree_sessionId t) (tree_id t))"
    let ?w1 = "if length cleared > 0 then emit ?ev ?w0 else ?w0"
    let ?E = "ExecuteDashboard env ctx sessionId (GetResource (Root t)) inputs'
                (tree_workspace t) [] ?w1"
    obtain pre where pre: "trace ?w1 = trace w @ ReadExecutions sessionId # pre"
      by (cases "length cleared > 0") (auto simp: emit_def)
    from ExecuteDashboard_trace[of env ctx sessionId "GetResource (Root t)" inputs'
           "tree_workspace t" "[]" ?w1]
    obtain new where new: "trace (snd ?E) = trace ?w1 @ new" by blast
    have "r = ?E \<or> r = (None, emit (SetInputValues t inputs') ?w1)"
      using assms Some c by (auto simp: OnInputChanged_def Let_def split: if_splits)
    hence "\<exists>rest. trace (snd r) = trace w @ (ReadExecutions sessionId # rest)"
      using pre new by (auto simp: emit_def)
    then obtain rest where "trace (snd r) = trace w @ (ReadExecutions sessionId # rest)" ..
    hence "added w (snd r) = ReadExecutions sessionId # rest" by (rule added_append)
    thus ?thesis ..
  qed
  thus "\<not> guarded False (added w (snd r))" by auto
qed

text \<open>
  C8 fails on the code for \<^verbatim>\<open>OnInputChanged\<close>: it reads \<^verbatim>\<open>e.executions[sessionId]\<close> without
  taking \<^verbatim>\<open>executionLock\<close>, where \<^verbatim>\<open>CancelExecutionForSession\<close> and \<^verbatim>\<open>ExecuteDashboard\<close> go
  through \<^verbatim>\<open>getExecution\<close>, \<^verbatim>\<open>setExecution\<close> and \<^verbatim>\<open>removeExecution\<close>, which hold it.
\<close>

theorem OnInputChanged_reads_executions_unlocked:
  "OnInputChanged sampleEnv \<lparr>Err = None\<rparr> ''s1'' fmempty ''x'' (freshWorld True)
     = Some (Some ''no dashboard running for session s1'',
             emit (ReadExecutions ''s1'') (freshWorld True))
   \<and> added (freshWorld True) (emit (ReadExecutions ''s1'') (freshWorld True))
       = [ReadExecutions ''s1'']
   \<and> \<not> guarded False (added (freshWorld True) (emit (ReadExecutions ''s1'') (freshWorld True)))
   \<and> guarded False (added (freshWorld True) (CancelExecutionForSession ''s1'' (freshWorld True)))
   \<and> guarded False
        (added (freshWorld True)
           (snd (ExecuteDashboard sampleEnv \<lparr>Err = None\<rparr> ''s1'' ''dashboard.sample''
                   fmempty ''ws'' [] (freshWorld True))))"
proof -
  have a: "OnInputChanged sampleEnv \<lparr>Err = None\<rparr> ''s1'' fmempty ''x'' (freshWorld True)
     = Some (Some ''no dashboard running for session s1'',
             emit (ReadExecutions ''s1'') (freshWorld True))"
    by (simp add: OnInputChanged_def freshWorld_def NewDashboardExecutor_def)
  have b: "added (freshWorld True) (emit (ReadExecutions ''s1'') (freshWorld True))
       = [ReadExecutions ''s1'']"
    by (simp add: emit_def)
  have c: "guarded False (added (freshWorld True) (CancelExecutionForSession ''s1'' (freshWorld True)))"
    by (simp add: Cancel_unregistered freshWorld_def NewDashboardExecutor_def)
  have d: "guarded False
        (added (freshWorld True)
           (snd (ExecuteDashboard sampleEnv \<lparr>Err = None\<rparr> ''s1'' ''dashboard.sample''
                   fmempty ''ws'' [] (freshWorld True))))"
    by (simp add: ExecuteDashboard_def ExecuteDashboard_body_def ExecuteDashboard_deferred_def
      CancelExecutionForSession_def getExecution_eq setExecution_eq validateInputs_def
      freshWorld_def NewDashboardExecutor_def sampleEnv_def emit_def len_def Let_def added_def)
  from a b c d show ?thesis by simp
qed

end
